theory Spec2Isabelle
  imports Complex_Main "HOL-Library.Sublist" "HOL-Library.Char_ord" "HOL-Library.List_Lexorder"
begin

section \<open>JavaScript values and strings\<close>

text \<open>
  The tools receive their arguments as the fields of a JSON object. A field value is
  observed by the code only through \<open>typeof v === 'string'\<close>, \<open>v != null\<close>, its
  truthiness, strict equality with a string literal and \<open>String(v)\<close>. Numbers are the
  integers that JavaScript prints in plain decimal. An array or object value is
  represented by what \<open>String\<close> yields on it, \<open>None\<close> when that conversion raises a
  TypeError. Strings are lists of characters.
\<close>

datatype jsval =
    Undefined
  | Null
  | Bool bool
  | Num int
  | Str string
  | Object "string option"

datatype error = Error string | TypeError string

type_synonym args = "(string \<times> jsval) list"

text \<open>
  Reading a field by destructuring: an absent field is \<open>undefined\<close>. The list of
  fields holds every key once.
\<close>

definition field :: "args \<Rightarrow> string \<Rightarrow> jsval" where
  "field a k = (case map_of a k of None \<Rightarrow> Undefined | Some v \<Rightarrow> v)"

definition truthy :: "jsval \<Rightarrow> bool" where
  "truthy v = (case v of
      Undefined \<Rightarrow> False
    | Null \<Rightarrow> False
    | Bool b \<Rightarrow> b
    | Num n \<Rightarrow> n \<noteq> 0
    | Str s \<Rightarrow> s \<noteq> []
    | Object _ \<Rightarrow> True)"

text \<open>\<open>v != null\<close>: neither null nor undefined.\<close>

definition not_nullish :: "jsval \<Rightarrow> bool" where
  "not_nullish v = (v \<noteq> Undefined \<and> v \<noteq> Null)"

definition digit_char :: "nat \<Rightarrow> char" where
  "digit_char d = char_of (48 + d)"

fun nat_digits :: "nat \<Rightarrow> string" where
  "nat_digits n = (if n < 10 then [digit_char n] else nat_digits (n div 10) @ [digit_char (n mod 10)])"

definition int_string :: "int \<Rightarrow> string" where
  "int_string i = (if i < 0 then CHR ''-'' # nat_digits (nat (- i)) else nat_digits (nat i))"

text \<open>\<open>String(v)\<close>; \<open>Inl\<close> is the TypeError of an object that has no usable \<open>toString\<close>.\<close>

definition js_String :: "jsval \<Rightarrow> error + string" where
  "js_String v = (case v of
      Undefined \<Rightarrow> Inr ''undefined''
    | Null \<Rightarrow> Inr ''null''
    | Bool b \<Rightarrow> Inr (if b then ''true'' else ''false'')
    | Num n \<Rightarrow> Inr (int_string n)
    | Str s \<Rightarrow> Inr s
    | Object None \<Rightarrow> Inl (TypeError ''Cannot convert object to primitive value'')
    | Object (Some s) \<Rightarrow> Inr s)"

definition and_then :: "error + 'a \<Rightarrow> ('a \<Rightarrow> error + 'b) \<Rightarrow> error + 'b" where
  "and_then m f = (case m of Inl e \<Rightarrow> Inl e | Inr x \<Rightarrow> f x)"

text \<open>\<open>xs.join(sep)\<close> on an array of strings.\<close>

fun join :: "string \<Rightarrow> string list \<Rightarrow> string" where
  "join sep [] = []"
| "join sep [x] = x"
| "join sep (x # y # ys) = x @ sep @ join sep (y # ys)"

text \<open>
  \<open>s.split(sep)\<close> with a string separator: the pieces between the successive
  occurrences of \<open>sep\<close>, found from left to right, each search starting behind the
  previous occurrence. \<open>split_from sep piece rest\<close> has read \<open>piece\<close> since the last cut.
  An empty separator cuts between all characters.
\<close>

function split_from :: "string \<Rightarrow> string \<Rightarrow> string \<Rightarrow> string list" where
  "split_from sep piece [] = [piece]"
| "split_from sep piece (c # cs) =
     (if sep \<noteq> [] \<and> prefix sep (c # cs)
      then piece # split_from sep [] (drop (length sep) (c # cs))
      else split_from sep (piece @ [c]) cs)"
  by pat_completeness auto
termination
  by (relation "measure (\<lambda>(sep, piece, rest). length rest)") auto

definition split :: "string \<Rightarrow> string \<Rightarrow> string list" where
  "split sep s = (if sep = [] then map (\<lambda>c. [c]) s else split_from sep [] s)"

text \<open>
  \<open>s.replace(pattern, replacement)\<close> with a string pattern replaces the first
  occurrence only. \<open>first_match pattern pre rest\<close> finds it: the text in front of it (\<open>pre\<close>) and
  the text behind it.
\<close>

fun first_match :: "string \<Rightarrow> string \<Rightarrow> string \<Rightarrow> (string \<times> string) option" where
  "first_match pat pre [] = (if pat = [] then Some (pre, []) else None)"
| "first_match pat pre (c # cs) =
     (if prefix pat (c # cs) then Some (pre, drop (length pat) (c # cs))
      else first_match pat (pre @ [c]) cs)"

text \<open>
  The replacement string of \<open>replace\<close> is a template: \<open>$$\<close> stands for a dollar sign,
  \<open>$&\<close> for the matched text, \<open>$`\<close> for the text in front of the match and \<open>$'\<close> for the
  text behind it. With a string pattern there are no capture groups, so every other
  use of \<open>$\<close> stands for itself.
\<close>

fun substitution :: "string \<Rightarrow> string \<Rightarrow> string \<Rightarrow> string \<Rightarrow> string" where
  "substitution matched pre post [] = []"
| "substitution matched pre post [c] = [c]"
| "substitution matched pre post (c # d # r) =
     (if c = CHR ''$'' \<and> d = CHR ''$'' then CHR ''$'' # substitution matched pre post r
      else if c = CHR ''$'' \<and> d = CHR ''&'' then matched @ substitution matched pre post r
      else if c = CHR ''$'' \<and> d = CHR 0x60 then pre @ substitution matched pre post r
      else if c = CHR ''$'' \<and> d = CHR 0x27 then post @ substitution matched pre post r
      else c # substitution matched pre post (d # r))"

definition replace :: "string \<Rightarrow> string \<Rightarrow> string \<Rightarrow> string" where
  "replace pat replacement s =
     (case first_match pat [] s of
        None \<Rightarrow> s
      | Some (pre, post) \<Rightarrow> pre @ substitution pat pre post replacement @ post)"

text \<open>\<open>typeof path === 'string' && path.startsWith('/')\<close>\<close>

definition route_path :: "jsval \<Rightarrow> string option" where
  "route_path v = (case v of Str s \<Rightarrow> if prefix ''/'' s then Some s else None | _ \<Rightarrow> None)"

text \<open>\<open>typeof v === 'string' && v.length > 0\<close>\<close>

definition nonempty_string :: "jsval \<Rightarrow> string option" where
  "nonempty_string v = (case v of Str s \<Rightarrow> if s = [] then None else Some s | _ \<Rightarrow> None)"

section \<open>The page store\<close>

record rule =
  placeholder :: string
  type :: string

record page =
  content :: string
  dynamic :: "rule list"

record layout =
  header_html :: string
  footer_html :: string

text \<open>
  \<open>pages\<close> is a JavaScript object used as a dictionary; its keys all start with a
  slash, so \<open>Object.entries\<close> lists them in insertion order. It is an association list
  with distinct keys in that order.
\<close>

type_synonym pages = "(string \<times> page) list"

record ctx =
  pages :: pages
  layout :: layout

definition new_page :: page where
  "new_page = \<lparr>content = [], dynamic = []\<rparr>"

text \<open>\<open>pages[path] || { content: '', dynamic: [] }\<close>\<close>

definition page_at :: "pages \<Rightarrow> string \<Rightarrow> page" where
  "page_at ps k = (case map_of ps k of None \<Rightarrow> new_page | Some p \<Rightarrow> p)"

text \<open>Assignment \<open>pages[path] = p\<close>: an existing key keeps its position, a new key goes last.\<close>

fun put_page :: "string \<Rightarrow> page \<Rightarrow> pages \<Rightarrow> pages" where
  "put_page k p [] = [(k, p)]"
| "put_page k p ((k', p') # ps) = (if k' = k then (k, p) # ps else (k', p') # put_page k p ps)"

section \<open>tools.js\<close>

subsection \<open>create-page\<close>

definition create_page :: "ctx \<Rightarrow> args \<Rightarrow> error + ctx" where
  \<open>create_page c a =
    (case route_path (field a ''path'') of
       None \<Rightarrow> Inl (Error ''create_page: "path" must be a string that starts with "/"'')
     | Some path \<Rightarrow>
        (case field a ''content'' of
           Str body \<Rightarrow>
             Inr (c\<lparr>pages := put_page path ((page_at (pages c) path)\<lparr>content := body\<rparr>) (pages c)\<rparr>)
         | _ \<Rightarrow> Inl (Error ''create_page: "content" must be a string'')))\<close>

subsection \<open>add-asset\<close>

text \<open>
  \<open>String(asset).replace(/^\\+|^\/+/, '')\<close>: the pattern is anchored and not global,
  so it removes one leading run, of backslashes if the text starts with one,
  otherwise of slashes.
\<close>

definition strip_leading :: "string \<Rightarrow> string" where
  "strip_leading s =
     (case s of
        [] \<Rightarrow> []
      | c # _ \<Rightarrow>
          if c = CHR 0x5C then dropWhile (\<lambda>x. x = CHR 0x5C) s
          else if c = CHR ''/'' then dropWhile (\<lambda>x. x = CHR ''/'') s
          else s)"

text \<open>\<open>.replace(/\\/g, '/')\<close>: every backslash becomes a slash.\<close>

definition asset_norm :: "string \<Rightarrow> string" where
  "asset_norm asset = map (\<lambda>x. if x = CHR 0x5C then CHR ''/'' else x) (strip_leading asset)"

definition asset_src :: "string \<Rightarrow> string" where
  "asset_src asset =
     (let norm = asset_norm asset in
      if prefix ''assets/'' norm then ''/'' @ norm
      else if prefix ''images/'' norm then ''/assets/'' @ norm
      else ''/assets/images/'' @ norm)"

definition attr :: "string \<Rightarrow> string \<Rightarrow> string" where
  "attr n v = n @ [CHR ''='', CHR 0x22] @ v @ [CHR 0x22]"

text \<open>\<open>if (v) attrs.push(`n="${String(v)}"`)\<close>\<close>

definition optional_attr :: "string \<Rightarrow> jsval \<Rightarrow> error + string list" where
  "optional_attr n v = (if truthy v then and_then (js_String v) (\<lambda>s. Inr [attr n s]) else Inr [])"

definition img_html :: "string \<Rightarrow> args \<Rightarrow> error + string" where
  "img_html asset a =
     and_then (if not_nullish (field a ''alt'') then js_String (field a ''alt'') else Inr []) (\<lambda>alt.
     and_then (optional_attr ''class'' (field a ''className'')) (\<lambda>cls.
     and_then (optional_attr ''width'' (field a ''width'')) (\<lambda>w.
     and_then (optional_attr ''height'' (field a ''height'')) (\<lambda>h.
       Inr (''<img '' @ join '' '' ([attr ''src'' (asset_src asset), attr ''alt'' alt] @ cls @ w @ h) @ '' />'')))))"

text \<open>
  The three placements. \<open>placement\<close> defaults to \<open>'append'\<close> when it is undefined;
  replacement needs \<open>typeof placeholder === 'string' && placeholder.length > 0\<close>.
\<close>

definition place :: "jsval \<Rightarrow> jsval \<Rightarrow> string \<Rightarrow> string \<Rightarrow> string" where
  "place given ph html current =
     (let placement = (if given = Undefined then Str ''append'' else given) in
      case (if placement = Str ''replace_placeholder'' then nonempty_string ph else None) of
        Some p \<Rightarrow> replace p html current
      | None \<Rightarrow>
          if placement = Str ''prepend'' then html @ current
          else current @ html)"

definition add_asset :: "ctx \<Rightarrow> args \<Rightarrow> error + ctx" where
  \<open>add_asset c a =
    (case route_path (field a ''path'') of
       None \<Rightarrow> Inl (Error ''add_asset: "path" must be a string that starts with "/"'')
     | Some path \<Rightarrow>
        (case nonempty_string (field a ''asset'') of
           None \<Rightarrow> Inl (Error ''add_asset: "asset" must be a non-empty string'')
         | Some asset \<Rightarrow>
             and_then (img_html asset a) (\<lambda>html.
               let current = content (page_at (pages c) path) in
               Inr (c\<lparr>pages := put_page path
                      ((page_at (pages c) path)
                         \<lparr>content := place (field a ''placement'') (field a ''placeholder'') html current\<rparr>)
                      (pages c)\<rparr>))))\<close>

subsection \<open>add-dynamic-content\<close>

definition add_dynamic_content :: "ctx \<Rightarrow> args \<Rightarrow> error + ctx" where
  \<open>add_dynamic_content c a =
    (case route_path (field a ''path'') of
       None \<Rightarrow> Inl (Error ''add_dynamic_content: "path" must be a string that starts with "/"'')
     | Some path \<Rightarrow>
        (case nonempty_string (field a ''placeholder'') of
           None \<Rightarrow> Inl (Error ''add_dynamic_content: "placeholder" must be a non-empty string'')
         | Some ph \<Rightarrow>
             if field a ''type'' \<noteq> Str ''CURRENT_TIME''
             then Inl (Error ''add_dynamic_content: only type "CURRENT_TIME" is supported in this PoC'')
             else
               let p = page_at (pages c) path in
               Inr (c\<lparr>pages := put_page path
                      (p\<lparr>dynamic := dynamic p @ [\<lparr>placeholder = ph, type = ''CURRENT_TIME''\<rparr>]\<rparr>)
                      (pages c)\<rparr>)))\<close>

subsection \<open>set-layout\<close>

text \<open>\<open>v != null ? String(v) : ''\<close>\<close>

definition string_or_empty :: "jsval \<Rightarrow> error + string" where
  "string_or_empty v = (if not_nullish v then js_String v else Inr [])"

definition set_layout :: "ctx \<Rightarrow> args \<Rightarrow> error + ctx" where
  "set_layout c a =
     and_then (string_or_empty (field a ''header_html'')) (\<lambda>header.
     and_then (string_or_empty (field a ''footer_html'')) (\<lambda>footer.
       Inr (c\<lparr>layout := \<lparr>header_html = header, footer_html = footer\<rparr>\<rparr>)))"

section \<open>llm-compiler.js\<close>

subsection \<open>Tool calls\<close>

text \<open>
  A tool call arrives as JSON, either in the shape of the chat-completions API,
  \<open>{ function: { name, arguments } }\<close>, or flat, \<open>{ name, arguments }\<close>. A name is
  \<open>None\<close> when it is absent, null or empty. Arguments are \<open>None\<close> when absent or null,
  an object that is already parsed, or JSON text. An array, a number or a boolean in
  the place of the arguments has none of the fields the tools read and is the
  parsed object without fields.
\<close>

datatype raw_args = Parsed args | Json string

record fn_call =
  fn_name :: "string option"
  fn_arguments :: "raw_args option"

record tool_call =
  func :: "fn_call option"
  name :: "string option"
  arguments :: "raw_args option"

definition non_empty :: "string option \<Rightarrow> string option" where
  "non_empty n = (case n of None \<Rightarrow> None | Some s \<Rightarrow> if s = [] then None else Some s)"

text \<open>\<open>call?.function?.name || call?.name\<close>\<close>

definition call_name :: "tool_call \<Rightarrow> string option" where
  "call_name call =
     (case (case func call of None \<Rightarrow> None | Some f \<Rightarrow> non_empty (fn_name f)) of
        Some n \<Rightarrow> Some n
      | None \<Rightarrow> non_empty (name call))"

text \<open>\<open>call?.function?.arguments ?? call?.arguments\<close>\<close>

definition call_arguments :: "tool_call \<Rightarrow> raw_args option" where
  "call_arguments call =
     (case (case func call of None \<Rightarrow> None | Some f \<Rightarrow> fn_arguments f) of
        Some r \<Rightarrow> Some r
      | None \<Rightarrow> arguments call)"

text \<open>
  \<open>parseToolArgs\<close>. \<open>JSON.parse\<close> is the parameter \<open>parse\<close>: the fields of the object
  that the text denotes (none for text that denotes another value), \<open>None\<close> when the
  text is not JSON.
\<close>

definition parseToolArgs :: "(string \<Rightarrow> args option) \<Rightarrow> raw_args option \<Rightarrow> error + args" where
  "parseToolArgs parse maybeJson =
     (case maybeJson of
        None \<Rightarrow> Inr []
      | Some (Parsed a) \<Rightarrow> Inr a
      | Some (Json text) \<Rightarrow>
          (case parse text of
             Some a \<Rightarrow> Inr a
           | None \<Rightarrow> Inl (Error (''Failed to parse tool arguments as JSON: '' @ text))))"

subsection \<open>Looking a tool up\<close>

text \<open>
  \<open>tools[name]\<close> reads a property of the object literal \<open>tools\<close>. Besides the four
  tools, the literal inherits the properties of \<open>Object.prototype\<close>, and the methods
  among them pass the test \<open>typeof fn === 'function'\<close>.
\<close>

datatype member =
    Create_page
  | Add_asset
  | Add_dynamic_content
  | Set_layout
  | Prototype_method string
  | Prototype_object

definition prototype_methods :: "string list" where
  "prototype_methods =
     [''constructor'', ''hasOwnProperty'', ''isPrototypeOf'', ''propertyIsEnumerable'',
      ''toLocaleString'', ''toString'', ''valueOf'', ''__defineGetter__'',
      ''__defineSetter__'', ''__lookupGetter__'', ''__lookupSetter__'']"

definition tools :: "string \<Rightarrow> member option" where
  "tools n =
     (if n = ''create_page'' then Some Create_page
      else if n = ''add_asset'' then Some Add_asset
      else if n = ''add_dynamic_content'' then Some Add_dynamic_content
      else if n = ''set_layout'' then Some Set_layout
      else if n \<in> set prototype_methods then Some (Prototype_method n)
      else if n = ''__proto__'' then Some Prototype_object
      else None)"

text \<open>\<open>typeof fn === 'function'\<close>\<close>

definition is_function :: "member \<Rightarrow> bool" where
  "is_function m = (m \<noteq> Prototype_object)"

text \<open>
  \<open>await fn(ctx, args)\<close>. The call passes no receiver. \<open>Object\<close> (the property
  \<open>constructor\<close>) and \<open>toString\<close> return without effect; every other inherited method
  converts its receiver to an object first, which raises a TypeError on
  \<open>undefined\<close>.
\<close>

definition invoke :: "member \<Rightarrow> ctx \<Rightarrow> args \<Rightarrow> error + ctx" where
  "invoke m c a =
     (case m of
        Create_page \<Rightarrow> create_page c a
      | Add_asset \<Rightarrow> add_asset c a
      | Add_dynamic_content \<Rightarrow> add_dynamic_content c a
      | Set_layout \<Rightarrow> set_layout c a
      | Prototype_method n \<Rightarrow>
          if n = ''constructor'' \<or> n = ''toString'' then Inr c
          else Inl (TypeError ''Cannot convert undefined or null to object'')
      | Prototype_object \<Rightarrow> Inr c)"

subsection \<open>Replaying the plan\<close>

text \<open>
  One turn of the loop over \<open>toolCalls\<close>: \<open>continue\<close> leaves the context as it is, an
  exception leaves the loop and \<open>compileApp\<close>.
\<close>

definition run_call :: "(string \<Rightarrow> args option) \<Rightarrow> ctx \<Rightarrow> tool_call \<Rightarrow> error + ctx" where
  "run_call parse c call =
     (case call_name call of
        None \<Rightarrow> Inr c
      | Some n \<Rightarrow>
          (case tools n of
             None \<Rightarrow> Inr c
           | Some fn \<Rightarrow>
               if \<not> is_function fn then Inr c
               else and_then (parseToolArgs parse (call_arguments call)) (invoke fn c)))"

fun replay :: "(string \<Rightarrow> args option) \<Rightarrow> tool_call list \<Rightarrow> ctx \<Rightarrow> error + ctx" where
  "replay parse [] c = Inr c"
| "replay parse (call # rest) c = and_then (run_call parse c call) (replay parse rest)"

definition empty_ctx :: ctx where
  "empty_ctx = \<lparr>pages = [], layout = \<lparr>header_html = [], footer_html = []\<rparr>\<rparr>"

subsection \<open>Routes and rendering\<close>

text \<open>
  \<open>applyDynamicReplacements\<close>. Every rule of type \<open>CURRENT_TIME\<close> reads the clock
  anew: \<open>clock k\<close> is the text that the \<open>k\<close>-th evaluation of
  \<open>new Date().toLocaleString()\<close> within the request yields.
\<close>

fun apply_entries :: "(nat \<Rightarrow> string) \<Rightarrow> nat \<Rightarrow> string \<Rightarrow> rule list \<Rightarrow> string" where
  "apply_entries clock k out [] = out"
| "apply_entries clock k out (entry # entries) =
     (if placeholder entry = [] then apply_entries clock k out entries
      else if type entry = ''CURRENT_TIME''
      then apply_entries clock (Suc k) (join (clock k) (split (placeholder entry) out)) entries
      else apply_entries clock k out entries)"

definition applyDynamicReplacements :: "(nat \<Rightarrow> string) \<Rightarrow> string \<Rightarrow> rule list \<Rightarrow> string" where
  "applyDynamicReplacements clock html dyn =
     (if dyn = [] then html else apply_entries clock 0 html dyn)"

text \<open>The handler that \<open>app.get(routePath, ...)\<close> registers: what it sends for a request.\<close>

definition handler :: "(nat \<Rightarrow> string) \<Rightarrow> layout \<Rightarrow> page \<Rightarrow> string" where
  "handler clock l p =
     (let body = applyDynamicReplacements clock (content p) (dynamic p);
          header = header_html l;
          footer = footer_html l
      in if header \<noteq> [] \<or> footer \<noteq> [] then header @ body @ footer else body)"

definition fallback_page :: page where
  \<open>fallback_page =
     \<lparr>content = ''<!doctype html><html><head><meta charset="utf-8"><title>LLM Compiler</title></head><body><h1>LLM compilation produced no pages</h1><p>Please check your API key and model, or adjust app.txt.</p></body></html>'',
      dynamic = []\<rparr>\<close>

text \<open>
  The compiled application, as far as the pipeline determines it: the routes in the
  order they are registered, each with the page its handler closes over, and the
  layout all handlers share.
\<close>

record app =
  routes :: "(string \<times> page) list"
  shared_layout :: layout

definition wire :: "ctx \<Rightarrow> app" where
  "wire c =
     \<lparr>routes = (if pages c = [] then [(''/'', fallback_page)] else pages c),
      shared_layout = layout c\<rparr>"

text \<open>Steps 4 to 6 of \<open>compileApp\<close>: what is done with the tool calls once they are known.\<close>

definition build :: "(string \<Rightarrow> args option) \<Rightarrow> tool_call list \<Rightarrow> error + app" where
  "build parse toolCalls = and_then (replay parse toolCalls empty_ctx) (\<lambda>c. Inr (wire c))"

subsection \<open>The plan cache\<close>

text \<open>
  The cache file holds a JSON document. \<open>toolCalls\<close> is \<open>None\<close> when the document
  has no array under that key, \<open>assetsSignature\<close> when it has no string there.
  \<open>sourceMTimeMs\<close> is written with the plan and never read back. Of the file
  itself the code reads the modification time and the content, \<open>None\<close> when it cannot
  be read or is not JSON.
\<close>

record cached_plan =
  toolCalls :: "tool_call list option"
  assetsSignature :: "string option"
  sourceMTimeMs :: real

record cache_file =
  mtimeMs :: real
  document :: "cached_plan option"

text \<open>\<open>JSON.stringify([...assetsList].sort())\<close>, with \<open>JSON.stringify\<close> a parameter.\<close>

definition assets_signature :: "(string list \<Rightarrow> string) \<Rightarrow> string list \<Rightarrow> string" where
  "assets_signature stringify assetsList = stringify (sort assetsList)"

text \<open>
  The cache check. \<open>sourceStat\<close> is the modification time of the source file and
  \<open>cacheStat\<close> the cache file, each \<open>None\<close> when \<open>fs.stat\<close> fails. The result is the
  cached plan when \<open>useCache\<close> is set.
\<close>

definition cache_check :: "real option \<Rightarrow> cache_file option \<Rightarrow> string \<Rightarrow> tool_call list option" where
  "cache_check sourceStat cacheStat signature =
     (case sourceStat of
        None \<Rightarrow> None
      | Some source_mtime \<Rightarrow>
          (case cacheStat of
             None \<Rightarrow> None
           | Some cache \<Rightarrow>
               if mtimeMs cache \<ge> source_mtime then
                 (case document cache of
                    None \<Rightarrow> None
                  | Some cached \<Rightarrow>
                      (case toolCalls cached of
                         None \<Rightarrow> None
                       | Some calls \<Rightarrow>
                           if assetsSignature cached = Some signature then Some calls else None))
               else None))"

text \<open>
  What \<open>compileApp\<close> finds when it starts: the two files, the asset inventory, the API
  key if one is configured, and what the request to the model would return.
\<close>

record env =
  sourceStat :: "real option"
  cacheStat :: "cache_file option"
  assetsList :: "string list"
  apiKey :: "string option"
  completion :: "error + tool_call list"

datatype origin = From_cache | From_model

definition plan :: "(string list \<Rightarrow> string) \<Rightarrow> env \<Rightarrow> error + origin \<times> tool_call list" where
  "plan stringify e =
     (case cache_check (sourceStat e) (cacheStat e) (assets_signature stringify (assetsList e)) of
        Some calls \<Rightarrow> Inr (From_cache, calls)
      | None \<Rightarrow>
          (case non_empty (apiKey e) of
             None \<Rightarrow> Inl (Error ''Gemini API key is missing. Provide it in config.json under gemini.apiKey or set GEMINI_API_KEY.'')
           | Some key \<Rightarrow> and_then (completion e) (\<lambda>calls. Inr (From_model, calls))))"

definition compileApp :: "(string list \<Rightarrow> string) \<Rightarrow> (string \<Rightarrow> args option) \<Rightarrow> env \<Rightarrow> error + app" where
  "compileApp stringify parse e = and_then (plan stringify e) (\<lambda>(how, calls). build parse calls)"

section \<open>Notions used in the properties\<close>

text \<open>The two guards of the replay loop that end a turn with \<open>continue\<close>.\<close>

definition skipped :: "tool_call \<Rightarrow> bool" where
  "skipped call =
     (case call_name call of
        None \<Rightarrow> True
      | Some n \<Rightarrow> (case tools n of None \<Rightarrow> True | Some fn \<Rightarrow> \<not> is_function fn))"

text \<open>Tool calls in the shape the model sends them, with parsed arguments.\<close>

definition tool_call_of :: "string \<Rightarrow> args \<Rightarrow> tool_call" where
  "tool_call_of n a =
     \<lparr>func = Some \<lparr>fn_name = Some n, fn_arguments = Some (Parsed a)\<rparr>, name = None, arguments = None\<rparr>"

definition create_page_call :: "string \<Rightarrow> string \<Rightarrow> tool_call" where
  "create_page_call path body = tool_call_of ''create_page'' [(''path'', Str path), (''content'', Str body)]"

text \<open>
  The substitution of section 4.3 of the specification, in its words: every literal
  occurrence of the placeholder, read from left to right, gives way to the timestamp.
\<close>

function replace_every_occurrence :: "string \<Rightarrow> string \<Rightarrow> string \<Rightarrow> string" where
  "replace_every_occurrence p now [] = []"
| "replace_every_occurrence p now (c # cs) =
     (if p \<noteq> [] \<and> prefix p (c # cs)
      then now @ replace_every_occurrence p now (drop (length p) (c # cs))
      else c # replace_every_occurrence p now cs)"
  by pat_completeness auto
termination
  by (relation "measure (\<lambda>(p, now, s). length s)") auto

text \<open>
  Step 1 of the render path in the words of the specification (section 4.3): every rule
  of the page is applied in the order added, each to the text that the rules before it
  have left, starting from the stored body. A \<open>CURRENT_TIME\<close> rule with a placeholder
  puts the timestamp read for it in the place of every occurrence of its placeholder.
\<close>

fun substitute_in_order :: "(nat \<Rightarrow> string) \<Rightarrow> nat \<Rightarrow> string \<Rightarrow> rule list \<Rightarrow> string" where
  "substitute_in_order clock k text [] = text"
| "substitute_in_order clock k text (r # rs) =
     (if type r = ''CURRENT_TIME'' \<and> placeholder r \<noteq> []
      then substitute_in_order clock (Suc k) (replace_every_occurrence (placeholder r) (clock k) text) rs
      else substitute_in_order clock k text rs)"

text \<open>
  A timestamp and a placeholder that cannot run into each other: the placeholder
  neither starts nor ends with a character of the timestamp, and does not contain the
  timestamp. \<open>{{CURRENT_TIME}}\<close> is apart from every timestamp that has no brace in
  it and is not a part of \<open>{{CURRENT_TIME}}\<close>.
\<close>

definition apart :: "string \<Rightarrow> string \<Rightarrow> bool" where
  "apart now p = (p \<noteq> [] \<and> hd p \<notin> set now \<and> last p \<notin> set now \<and> \<not> sublist now p)"

text \<open>
  Cache validity in the words of the specification (section 3): the fingerprint stored
  in the plan is at least as new as the modification time of the source file, and the
  signature stored in the plan is the current one.
\<close>

definition valid_for_reuse :: "real \<Rightarrow> string \<Rightarrow> cached_plan \<Rightarrow> bool" where
  "valid_for_reuse source_mtime signature cached =
     (sourceMTimeMs cached \<ge> source_mtime \<and> assetsSignature cached = Some signature)"

section \<open>Properties\<close>

subsection \<open>The page store\<close>

lemma map_of_put_page: "map_of (put_page k p ps) = (map_of ps)(k \<mapsto> p)"
  by (induction ps) auto

lemma keys_put_page_present: "k \<in> fst ` set ps \<Longrightarrow> map fst (put_page k p ps) = map fst ps"
  by (induction ps) force+

lemma keys_put_page_absent: "k \<notin> fst ` set ps \<Longrightarrow> map fst (put_page k p ps) = map fst ps @ [k]"
  by (induction ps) auto

subsection \<open>Asset references\<close>


subsection \<open>Layout stitching\<close>

text \<open>
  C6. For every page the response is the header, then the substituted body, then the
  footer. When header and footer are both empty, the response is the substituted body
  and nothing else. With header \<open><H>\<close>, footer \<open><F>\<close> and body \<open>B\<close> it is \<open><H>B<F>\<close>.
\<close>

theorem response_is_header_body_footer:
  "handler clock l p =
     header_html l @ applyDynamicReplacements clock (content p) (dynamic p) @ footer_html l
   \<and> handler clock \<lparr>header_html = [], footer_html = []\<rparr> p =
     applyDynamicReplacements clock (content p) (dynamic p)
   \<and> handler clock \<lparr>header_html = ''<H>'', footer_html = ''<F>''\<rparr> \<lparr>content = ''B'', dynamic = []\<rparr> =
     ''<H>B<F>''
   \<and> handler clock \<lparr>header_html = [], footer_html = []\<rparr> \<lparr>content = ''B'', dynamic = []\<rparr> = ''B''"
  by (simp add: handler_def applyDynamicReplacements_def Let_def)

theorem response_is_header_body_footer_witness:
  "handler (\<lambda>k. ''11/2/2026, 5:15:00 AM'') \<lparr>header_html = ''<H>'', footer_html = ''<F>''\<rparr>
     \<lparr>content = ''B'', dynamic = []\<rparr> = ''<H>B<F>''
   \<and> handler (\<lambda>k. ''11/2/2026, 5:15:00 AM'') \<lparr>header_html = [], footer_html = []\<rparr>
     \<lparr>content = ''B'', dynamic = []\<rparr> = ''B''"
  using response_is_header_body_footer [where clock = "\<lambda>k. ''11/2/2026, 5:15:00 AM''"]
  by blast

subsection \<open>Creating a page that exists\<close>

text \<open>
  C10. \<open>create_page\<close> with well-formed arguments, on a path that the page store
  already holds, succeeds and overwrites the content of that page only: the page keeps
  its dynamic rules, every other page is as it was, the paths keep their order, and the
  layout is unchanged.
\<close>

theorem create_page_overwrites_content_only:
  assumes "map_of (pages c) path = Some p"
    and "field a ''path'' = Str path"
    and "prefix ''/'' path"
    and "field a ''content'' = Str body"
  shows "\<exists>c'. create_page c a = Inr c'
           \<and> map_of (pages c') path = Some \<lparr>content = body, dynamic = dynamic p\<rparr>
           \<and> (\<forall>k. k \<noteq> path \<longrightarrow> map_of (pages c') k = map_of (pages c) k)
           \<and> map fst (pages c') = map fst (pages c)
           \<and> layout c' = layout c"
proof -
  let ?c' = "c\<lparr>pages := put_page path (p\<lparr>content := body\<rparr>) (pages c)\<rparr>"
  have at: "page_at (pages c) path = p"
    using assms(1) by (simp add: page_at_def)
  have run: "create_page c a = Inr ?c'"
    using assms(2-4) at by (simp add: create_page_def route_path_def)
  have present: "path \<in> fst ` set (pages c)"
    using assms(1) by (force dest!: map_of_SomeD)
  have "map fst (pages ?c') = map fst (pages c)"
    using present by (simp add: keys_put_page_present)
  moreover have "map_of (pages ?c') path = Some \<lparr>content = body, dynamic = dynamic p\<rparr>"
    by (simp add: map_of_put_page)
  moreover have "\<forall>k. k \<noteq> path \<longrightarrow> map_of (pages ?c') k = map_of (pages c) k"
    by (simp add: map_of_put_page)
  moreover have "layout ?c' = layout c"
    by simp
  ultimately show ?thesis
    using run by blast
qed

theorem create_page_overwrites_content_only_witness:
  "\<exists>c'. create_page
           \<lparr>pages = [(''/'', \<lparr>content = ''old'', dynamic = [\<lparr>placeholder = ''{{T}}'', type = ''CURRENT_TIME''\<rparr>]\<rparr>),
                     (''/about'', \<lparr>content = ''us'', dynamic = []\<rparr>)],
            layout = \<lparr>header_html = ''<H>'', footer_html = ''<F>''\<rparr>\<rparr>
           [(''path'', Str ''/''), (''content'', Str ''new'')] = Inr c'
         \<and> map_of (pages c') ''/'' =
             Some \<lparr>content = ''new'', dynamic = [\<lparr>placeholder = ''{{T}}'', type = ''CURRENT_TIME''\<rparr>]\<rparr>
         \<and> map_of (pages c') ''/about'' = Some \<lparr>content = ''us'', dynamic = []\<rparr>
         \<and> map fst (pages c') = [''/'', ''/about'']
         \<and> layout c' = \<lparr>header_html = ''<H>'', footer_html = ''<F>''\<rparr>"
proof -
  let ?c = "\<lparr>pages = [(''/'', \<lparr>content = ''old'', dynamic = [\<lparr>placeholder = ''{{T}}'', type = ''CURRENT_TIME''\<rparr>]\<rparr>),
                     (''/about'', \<lparr>content = ''us'', dynamic = []\<rparr>)],
            layout = \<lparr>header_html = ''<H>'', footer_html = ''<F>''\<rparr>\<rparr>"
  let ?a = "[(''path'', Str ''/''), (''content'', Str ''new'')]"
  have "map_of (pages ?c) ''/'' =
          Some \<lparr>content = ''old'', dynamic = [\<lparr>placeholder = ''{{T}}'', type = ''CURRENT_TIME''\<rparr>]\<rparr>"
    and "field ?a ''path'' = Str ''/''"
    and "prefix ''/'' ''/''"
    and "field ?a ''content'' = Str ''new''"
    by (simp_all add: field_def)
  from create_page_overwrites_content_only [OF this]
  obtain c' where run: "create_page ?c ?a = Inr c'"
    and page: "map_of (pages c') ''/'' =
                 Some \<lparr>content = ''new'', dynamic = [\<lparr>placeholder = ''{{T}}'', type = ''CURRENT_TIME''\<rparr>]\<rparr>"
    and others: "\<forall>k. k \<noteq> ''/'' \<longrightarrow> map_of (pages c') k = map_of (pages ?c) k"
    and order: "map fst (pages c') = map fst (pages ?c)"
    and lay: "layout c' = layout ?c"
    by auto
  from others have "map_of (pages c') ''/about'' = Some \<lparr>content = ''us'', dynamic = []\<rparr>"
    by simp
  with run page order lay show ?thesis
    by simp
qed

subsection \<open>Replay\<close>

lemma replay_append:
  "replay parse (xs @ ys) c = and_then (replay parse xs c) (replay parse ys)"
  by (induction xs arbitrary: c) (auto simp: and_then_def split: sum.splits)

lemma run_call_skipped: "skipped call \<Longrightarrow> run_call parse c call = Inr c"
  by (auto simp: skipped_def run_call_def split: option.splits)

lemma replay_all_skipped: "\<forall>call\<in>set calls. skipped call \<Longrightarrow> replay parse calls c = Inr c"
  by (induction calls) (auto simp: run_call_skipped and_then_def)

lemma run_create_page_call:
  "prefix ''/'' path \<Longrightarrow>
   run_call parse c (create_page_call path body) =
     Inr (c\<lparr>pages := put_page path ((page_at (pages c) path)\<lparr>content := body\<rparr>) (pages c)\<rparr>)"
  by (simp add: run_call_def create_page_call_def tool_call_of_def call_name_def non_empty_def
      tools_def is_function_def call_arguments_def parseToolArgs_def and_then_def invoke_def
      create_page_def field_def route_path_def)

text \<open>
  C2, as claimed: a call with malformed arguments is skipped and the calls after it are
  still applied. The loop has no handler around \<open>parseToolArgs\<close> and the tool: the
  error of a \<open>create_page\<close> without a leading slash in its path, and the error of
  arguments that are not JSON, end the replay, and the call after them is not applied.
\<close>

theorem malformed_call_aborts_replay:
  \<open>replay Map.empty [create_page_call ''about'' ''A'', create_page_call ''/b'' ''B''] empty_ctx =
     Inl (Error ''create_page: "path" must be a string that starts with "/"'')
   \<and> replay Map.empty [create_page_call ''about'' ''A'', create_page_call ''/b'' ''B''] empty_ctx \<noteq>
     replay Map.empty [create_page_call ''/b'' ''B''] empty_ctx
   \<and> replay Map.empty
       [\<lparr>func = None, name = Some ''create_page'', arguments = Some (Json ''{oops'')\<rparr>,
        create_page_call ''/b'' ''B''] empty_ctx =
     Inl (Error ''Failed to parse tool arguments as JSON: {oops'')\<close>
  by (simp add: run_call_def create_page_call_def tool_call_of_def call_name_def non_empty_def
      tools_def is_function_def call_arguments_def parseToolArgs_def and_then_def invoke_def
      create_page_def field_def route_path_def empty_ctx_def page_at_def new_page_def
      prototype_methods_def)

lemma run_call_parse_failure:
  "call_name call = Some n \<Longrightarrow> tools n = Some fn \<Longrightarrow> is_function fn \<Longrightarrow>
   parseToolArgs parse (call_arguments call) = Inl e \<Longrightarrow> run_call parse c call = Inl e"
  by (simp add: run_call_def and_then_def)

lemma run_call_tool_failure:
  "call_name call = Some n \<Longrightarrow> tools n = Some fn \<Longrightarrow> is_function fn \<Longrightarrow>
   parseToolArgs parse (call_arguments call) = Inr a \<Longrightarrow> invoke fn c a = Inl e \<Longrightarrow>
   run_call parse c call = Inl e"
  by (simp add: run_call_def and_then_def)

lemma replay_stops_at_error:
  "replay parse earlier c = Inr c' \<Longrightarrow> run_call parse c' call = Inl e \<Longrightarrow>
   replay parse (earlier @ call # later) c = Inl e"
  by (simp add: replay_append and_then_def)

text \<open>
  C2, amended. A call that has no name, or whose name is no function-valued property
  of \<open>tools\<close>, is skipped: the replay is that of the list without it. A call to a
  function-valued property whose arguments cannot be parsed, or whose tool raises, is
  not caught: the replay of every list that holds it behind calls that complete ends
  with that error, whatever calls follow. So it is for \<open>create_page\<close> with a path
  that is no string starting with a slash, and for \<open>add_dynamic_content\<close> with a type
  other than \<open>CURRENT_TIME\<close>.
\<close>

theorem replay_skips_or_aborts:
  \<open>(skipped call \<longrightarrow>
      replay parse (earlier @ call # later) c = replay parse (earlier @ later) c)
   \<and> (replay parse earlier c = Inr c' \<and> call_name call = Some n \<and> tools n = Some fn
        \<and> is_function fn \<and> parseToolArgs parse (call_arguments call) = Inl e \<longrightarrow>
        replay parse (earlier @ call # later) c = Inl e)
   \<and> (replay parse earlier c = Inr c' \<and> call_name call = Some n \<and> tools n = Some fn
        \<and> is_function fn \<and> parseToolArgs parse (call_arguments call) = Inr a
        \<and> invoke fn c' a = Inl e \<longrightarrow>
        replay parse (earlier @ call # later) c = Inl e)
   \<and> (replay parse earlier c = Inr c' \<and> call_name call = Some ''create_page''
        \<and> parseToolArgs parse (call_arguments call) = Inr a
        \<and> route_path (field a ''path'') = None \<longrightarrow>
        replay parse (earlier @ call # later) c =
          Inl (Error ''create_page: "path" must be a string that starts with "/"''))
   \<and> (replay parse earlier c = Inr c' \<and> call_name call = Some ''add_dynamic_content''
        \<and> parseToolArgs parse (call_arguments call) = Inr a
        \<and> route_path (field a ''path'') = Some path
        \<and> nonempty_string (field a ''placeholder'') = Some ph
        \<and> field a ''type'' \<noteq> Str ''CURRENT_TIME'' \<longrightarrow>
        replay parse (earlier @ call # later) c =
          Inl (Error ''add_dynamic_content: only type "CURRENT_TIME" is supported in this PoC''))\<close>
proof -
  have one: "replay parse (earlier @ call # later) c = replay parse (earlier @ later) c"
    if "skipped call"
    using that by (auto simp: replay_append run_call_skipped and_then_def split: sum.splits)
  have two: "replay parse (earlier @ call # later) c = Inl e"
    if "replay parse earlier c = Inr c'" "call_name call = Some n" "tools n = Some fn"
      "is_function fn" "parseToolArgs parse (call_arguments call) = Inl e"
    using that(1) run_call_parse_failure [OF that(2-5)] by (rule replay_stops_at_error)
  have three: "replay parse (earlier @ call # later) c = Inl e"
    if "replay parse earlier c = Inr c'" "call_name call = Some n" "tools n = Some fn"
      "is_function fn" "parseToolArgs parse (call_arguments call) = Inr a" "invoke fn c' a = Inl e"
    using that(1) run_call_tool_failure [OF that(2-6)] by (rule replay_stops_at_error)
  have four: \<open>replay parse (earlier @ call # later) c =
          Inl (Error ''create_page: "path" must be a string that starts with "/"'')\<close>
    if "replay parse earlier c = Inr c'" "call_name call = Some ''create_page''"
      "parseToolArgs parse (call_arguments call) = Inr a" "route_path (field a ''path'') = None"
  proof -
    have look: "tools ''create_page'' = Some Create_page" "is_function Create_page"
      by (simp_all add: tools_def is_function_def)
    have \<open>invoke Create_page c' a =
        Inl (Error ''create_page: "path" must be a string that starts with "/"'')\<close>
      using that(4) by (simp add: invoke_def create_page_def)
    from that(1) run_call_tool_failure [OF that(2) look that(3) this]
    show ?thesis by (rule replay_stops_at_error)
  qed
  have five: \<open>replay parse (earlier @ call # later) c =
          Inl (Error ''add_dynamic_content: only type "CURRENT_TIME" is supported in this PoC'')\<close>
    if "replay parse earlier c = Inr c'" "call_name call = Some ''add_dynamic_content''"
      "parseToolArgs parse (call_arguments call) = Inr a"
      "route_path (field a ''path'') = Some path"
      "nonempty_string (field a ''placeholder'') = Some ph"
      "field a ''type'' \<noteq> Str ''CURRENT_TIME''"
  proof -
    have look: "tools ''add_dynamic_content'' = Some Add_dynamic_content"
      "is_function Add_dynamic_content"
      by (simp_all add: tools_def is_function_def)
    have \<open>invoke Add_dynamic_content c' a =
        Inl (Error ''add_dynamic_content: only type "CURRENT_TIME" is supported in this PoC'')\<close>
      using that(4-6) by (simp add: invoke_def add_dynamic_content_def)
    from that(1) run_call_tool_failure [OF that(2) look that(3) this]
    show ?thesis by (rule replay_stops_at_error)
  qed
  from one two three four five show ?thesis
    by blast
qed

theorem replay_skips_or_aborts_witness:
  \<open>skipped (tool_call_of ''no_such_tool'' [])
   \<and> replay Map.empty
        ([create_page_call ''/a'' ''A''] @ tool_call_of ''no_such_tool'' [] # [create_page_call ''/b'' ''B''])
        empty_ctx =
      replay Map.empty ([create_page_call ''/a'' ''A''] @ [create_page_call ''/b'' ''B'']) empty_ctx
   \<and> replay Map.empty [create_page_call ''/a'' ''A''] empty_ctx =
        Inr \<lparr>pages = [(''/a'', \<lparr>content = ''A'', dynamic = []\<rparr>)],
             layout = \<lparr>header_html = [], footer_html = []\<rparr>\<rparr>
   \<and> replay Map.empty
        ([create_page_call ''/a'' ''A'']
           @ \<lparr>func = None, name = Some ''create_page'', arguments = Some (Json ''{oops'')\<rparr>
           # [create_page_call ''/b'' ''B''])
        empty_ctx =
      Inl (Error ''Failed to parse tool arguments as JSON: {oops'')
   \<and> replay Map.empty
        ([create_page_call ''/a'' ''A''] @ create_page_call ''about'' ''X'' # [create_page_call ''/b'' ''B''])
        empty_ctx =
      Inl (Error ''create_page: "path" must be a string that starts with "/"'')
   \<and> replay Map.empty
        ([create_page_call ''/a'' ''A'']
           @ tool_call_of ''add_dynamic_content''
               [(''path'', Str ''/a''), (''placeholder'', Str ''{{R}}''), (''type'', Str ''RANDOM'')]
           # [create_page_call ''/b'' ''B''])
        empty_ctx =
      Inl (Error ''add_dynamic_content: only type "CURRENT_TIME" is supported in this PoC'')\<close>
proof -
  let ?earlier = "[create_page_call ''/a'' ''A'']"
  let ?later = "[create_page_call ''/b'' ''B'']"
  let ?c' = "\<lparr>pages = [(''/a'', \<lparr>content = ''A'', dynamic = []\<rparr>)],
             layout = \<lparr>header_html = [], footer_html = []\<rparr>\<rparr>"
  let ?unparsed = "\<lparr>func = None, name = Some ''create_page'', arguments = Some (Json ''{oops'')\<rparr>"
  let ?dyn_args = "[(''path'', Str ''/a''), (''placeholder'', Str ''{{R}}''), (''type'', Str ''RANDOM'')]"
  let ?about_args = "[(''path'', Str ''about''), (''content'', Str ''X'')]"
  have skip: "skipped (tool_call_of ''no_such_tool'' [])"
    by (simp add: skipped_def tool_call_of_def call_name_def non_empty_def tools_def
        prototype_methods_def)
  have first: "replay Map.empty ?earlier empty_ctx = Inr ?c'"
    by (simp add: run_create_page_call and_then_def empty_ctx_def page_at_def new_page_def)
  have look: "tools ''create_page'' = Some Create_page" "is_function Create_page"
    by (simp_all add: tools_def is_function_def)
  have unparsed: "call_name ?unparsed = Some ''create_page''"
    "parseToolArgs Map.empty (call_arguments ?unparsed) =
       Inl (Error ''Failed to parse tool arguments as JSON: {oops'')"
    by (simp_all add: call_name_def non_empty_def call_arguments_def parseToolArgs_def)
  have about: "call_name (create_page_call ''about'' ''X'') = Some ''create_page''"
    "parseToolArgs Map.empty (call_arguments (create_page_call ''about'' ''X'')) = Inr ?about_args"
    "route_path (field ?about_args ''path'') = None"
    by (simp_all add: create_page_call_def tool_call_of_def call_name_def non_empty_def
        call_arguments_def parseToolArgs_def field_def route_path_def)
  have dyn: "call_name (tool_call_of ''add_dynamic_content'' ?dyn_args) = Some ''add_dynamic_content''"
    "parseToolArgs Map.empty (call_arguments (tool_call_of ''add_dynamic_content'' ?dyn_args)) =
       Inr ?dyn_args"
    "route_path (field ?dyn_args ''path'') = Some ''/a''"
    "nonempty_string (field ?dyn_args ''placeholder'') = Some ''{{R}}''"
    "field ?dyn_args ''type'' \<noteq> Str ''CURRENT_TIME''"
    by (simp_all add: tool_call_of_def call_name_def non_empty_def call_arguments_def
        parseToolArgs_def field_def route_path_def nonempty_string_def)
  note general = replay_skips_or_aborts [where parse = Map.empty and earlier = ?earlier and later = ?later
      and c = empty_ctx and c' = ?c']
  from general [where call = "tool_call_of ''no_such_tool'' []"] skip
  have one: "replay Map.empty (?earlier @ tool_call_of ''no_such_tool'' [] # ?later) empty_ctx =
      replay Map.empty (?earlier @ ?later) empty_ctx"
    by blast
  from general [where call = ?unparsed and n = "''create_page''" and fn = Create_page
      and e = "Error ''Failed to parse tool arguments as JSON: {oops''"] first look unparsed
  have two: "replay Map.empty (?earlier @ ?unparsed # ?later) empty_ctx =
      Inl (Error ''Failed to parse tool arguments as JSON: {oops'')"
    by blast
  from general [where call = "create_page_call ''about'' ''X''" and a = ?about_args] first about
  have three: \<open>replay Map.empty (?earlier @ create_page_call ''about'' ''X'' # ?later) empty_ctx =
      Inl (Error ''create_page: "path" must be a string that starts with "/"'')\<close>
    by blast
  from general [where call = "tool_call_of ''add_dynamic_content'' ?dyn_args" and a = ?dyn_args
      and path = "''/a''" and ph = "''{{R}}''"] first dyn
  have four: \<open>replay Map.empty
        (?earlier @ tool_call_of ''add_dynamic_content'' ?dyn_args # ?later) empty_ctx =
      Inl (Error ''add_dynamic_content: only type "CURRENT_TIME" is supported in this PoC'')\<close>
    by blast
  from skip one first two three four show ?thesis
    by blast
qed

text \<open>
  C3. A valid \<open>create_page\<close> call, a call to \<open>valueOf\<close>, which is no tool, and another
  valid \<open>create_page\<close> call: \<open>tools['valueOf']\<close> is the method inherited from
  \<open>Object.prototype\<close>, the guard for unknown tools lets it pass, the call raises a
  TypeError, and the build ends without either page.
\<close>

theorem inherited_name_aborts_build:
  "build Map.empty
     [create_page_call ''/a'' ''A'', tool_call_of ''valueOf'' [], create_page_call ''/b'' ''B''] =
   Inl (TypeError ''Cannot convert undefined or null to object'')"
  by (simp add: build_def run_call_def create_page_call_def tool_call_of_def call_name_def non_empty_def
      tools_def is_function_def call_arguments_def parseToolArgs_def and_then_def invoke_def
      create_page_def field_def route_path_def empty_ctx_def page_at_def new_page_def
      prototype_methods_def)

text \<open>
  Between two valid \<open>create_page\<close> calls, a call whose name is no property of \<open>tools\<close>
  at all is skipped, and both pages are there after the replay.
\<close>

lemma unknown_name_between_two_pages:
  assumes "tools n = None" and "n \<noteq> []" and "prefix ''/'' p1" and "prefix ''/'' p2"
  shows "\<exists>c. replay parse [create_page_call p1 b1, tool_call_of n a, create_page_call p2 b2] empty_ctx = Inr c
           \<and> map_of (pages c) p2 = Some \<lparr>content = b2, dynamic = []\<rparr>
           \<and> (p1 \<noteq> p2 \<longrightarrow> map_of (pages c) p1 = Some \<lparr>content = b1, dynamic = []\<rparr>)
           \<and> fst ` set (pages c) = {p1, p2}"
proof -
  have "skipped (tool_call_of n a)"
    using assms(1,2) by (simp add: skipped_def tool_call_of_def call_name_def non_empty_def)
  then have "run_call parse c (tool_call_of n a) = Inr c" for c
    by (rule run_call_skipped)
  then show ?thesis
    using assms(3,4)
    by (auto simp: run_create_page_call and_then_def empty_ctx_def page_at_def new_page_def
        map_of_put_page)
qed

subsection \<open>The fallback route\<close>

text \<open>
  C8, as claimed: a build whose calls are all invalid has one route, at the root. A
  single \<open>create_page\<close> call with a path that lacks the slash is such a build; it ends
  with the error of the tool and makes no route table.
\<close>

theorem invalid_call_leaves_no_routes:
  \<open>build Map.empty [create_page_call ''about'' ''A''] =
     Inl (Error ''create_page: "path" must be a string that starts with "/"'')\<close>
  by (simp add: build_def run_call_def create_page_call_def tool_call_of_def call_name_def non_empty_def
      tools_def is_function_def call_arguments_def parseToolArgs_def and_then_def invoke_def
      create_page_def field_def route_path_def empty_ctx_def page_at_def new_page_def
      prototype_methods_def)

text \<open>
  C8, amended. A replay that completes without any page gives exactly one route, at
  \<open>/\<close>, with the diagnostic page; so does every build whose tool-call list is empty or
  whose calls are all skipped. No build that completes has an empty route table, and
  a build whose replay ends with an error has no route table at all.
\<close>

theorem no_pages_gives_fallback_route:
  "(replay parse calls empty_ctx = Inr c \<and> pages c = [] \<longrightarrow>
      build parse calls = Inr \<lparr>routes = [(''/'', fallback_page)], shared_layout = layout c\<rparr>)
   \<and> ((\<forall>call\<in>set calls. skipped call) \<longrightarrow>
      build parse calls =
        Inr \<lparr>routes = [(''/'', fallback_page)],
             shared_layout = \<lparr>header_html = [], footer_html = []\<rparr>\<rparr>)
   \<and> build parse [] =
        Inr \<lparr>routes = [(''/'', fallback_page)],
             shared_layout = \<lparr>header_html = [], footer_html = []\<rparr>\<rparr>
   \<and> (build parse calls = Inr a \<longrightarrow> routes a \<noteq> [])
   \<and> (replay parse calls empty_ctx = Inl e \<longrightarrow> build parse calls = Inl e)"
proof -
  have "build parse calls = Inr \<lparr>routes = [(''/'', fallback_page)], shared_layout = layout c\<rparr>"
    if "replay parse calls empty_ctx = Inr c" and "pages c = []"
    using that by (simp add: build_def and_then_def wire_def)
  moreover have "build parse calls =
        Inr \<lparr>routes = [(''/'', fallback_page)],
             shared_layout = \<lparr>header_html = [], footer_html = []\<rparr>\<rparr>"
    if "\<forall>call\<in>set calls. skipped call"
    using replay_all_skipped [OF that, of parse empty_ctx]
    by (simp add: build_def and_then_def wire_def empty_ctx_def)
  moreover have "build parse [] =
        Inr \<lparr>routes = [(''/'', fallback_page)],
             shared_layout = \<lparr>header_html = [], footer_html = []\<rparr>\<rparr>"
    by (simp add: build_def and_then_def wire_def empty_ctx_def)
  moreover have "routes a \<noteq> []" if "build parse calls = Inr a"
    using that by (auto simp: build_def and_then_def wire_def split: sum.splits if_splits)
  moreover have "build parse calls = Inl e" if "replay parse calls empty_ctx = Inl e"
    using that by (simp add: build_def and_then_def)
  ultimately show ?thesis
    by blast
qed

theorem no_pages_gives_fallback_route_witness:
  "skipped \<lparr>func = None, name = None, arguments = None\<rparr>
   \<and> skipped (tool_call_of ''no_such_tool'' [])
   \<and> build Map.empty [\<lparr>func = None, name = None, arguments = None\<rparr>, tool_call_of ''no_such_tool'' []] =
        Inr \<lparr>routes = [(''/'', fallback_page)],
             shared_layout = \<lparr>header_html = [], footer_html = []\<rparr>\<rparr>
   \<and> replay Map.empty [tool_call_of ''set_layout'' [(''header_html'', Str ''<H>'')]] empty_ctx =
        Inr \<lparr>pages = [], layout = \<lparr>header_html = ''<H>'', footer_html = []\<rparr>\<rparr>
   \<and> build Map.empty [tool_call_of ''set_layout'' [(''header_html'', Str ''<H>'')]] =
        Inr \<lparr>routes = [(''/'', fallback_page)],
             shared_layout = \<lparr>header_html = ''<H>'', footer_html = []\<rparr>\<rparr>
   \<and> routes \<lparr>routes = [(''/'', fallback_page)],
              shared_layout = \<lparr>header_html = ''<H>'', footer_html = []\<rparr>\<rparr> \<noteq> []"
proof -
  let ?calls = "[\<lparr>func = None, name = None, arguments = None\<rparr>, tool_call_of ''no_such_tool'' []]"
  let ?lay = "[tool_call_of ''set_layout'' [(''header_html'', Str ''<H>'')]]"
  have s1: "skipped \<lparr>func = None, name = None, arguments = None\<rparr>"
    by (simp add: skipped_def call_name_def non_empty_def)
  have s2: "skipped (tool_call_of ''no_such_tool'' [])"
    by (simp add: skipped_def tool_call_of_def call_name_def non_empty_def tools_def
        prototype_methods_def)
  have all: "\<forall>call\<in>set ?calls. skipped call"
    using s1 s2 by simp
  have lay: "replay Map.empty ?lay empty_ctx =
        Inr \<lparr>pages = [], layout = \<lparr>header_html = ''<H>'', footer_html = []\<rparr>\<rparr>"
    by (simp add: run_call_def tool_call_of_def call_name_def non_empty_def tools_def
        is_function_def call_arguments_def parseToolArgs_def and_then_def invoke_def
        set_layout_def string_or_empty_def not_nullish_def js_String_def field_def empty_ctx_def)
  note general = no_pages_gives_fallback_route
  from general [where parse = Map.empty and calls = ?calls] all
  have b1: "build Map.empty ?calls =
        Inr \<lparr>routes = [(''/'', fallback_page)],
             shared_layout = \<lparr>header_html = [], footer_html = []\<rparr>\<rparr>"
    by blast
  from general [where parse = Map.empty and calls = ?lay
      and c = "\<lparr>pages = [], layout = \<lparr>header_html = ''<H>'', footer_html = []\<rparr>\<rparr>"] lay
  have b2: "build Map.empty ?lay =
        Inr \<lparr>routes = [(''/'', fallback_page)],
             shared_layout = \<lparr>header_html = ''<H>'', footer_html = []\<rparr>\<rparr>"
    by simp
  from general [where parse = Map.empty and calls = ?lay
      and a = "\<lparr>routes = [(''/'', fallback_page)],
             shared_layout = \<lparr>header_html = ''<H>'', footer_html = []\<rparr>\<rparr>"] b2
  have b3: "routes \<lparr>routes = [(''/'', fallback_page)],
              shared_layout = \<lparr>header_html = ''<H>'', footer_html = []\<rparr>\<rparr> \<noteq> []"
    by blast
  from s1 s2 b1 lay b2 b3 show ?thesis
    by blast
qed

subsection \<open>Dynamic replacements\<close>

lemma split_from_not_empty: "split_from sep piece s \<noteq> []"
  by (induction sep piece s rule: split_from.induct) auto

lemma join_Cons: "xs \<noteq> [] \<Longrightarrow> join sep (x # xs) = x @ sep @ join sep xs"
  by (cases xs) auto

lemma join_split_from:
  "p \<noteq> [] \<Longrightarrow> join now (split_from p piece s) = piece @ replace_every_occurrence p now s"
  by (induction p piece s rule: split_from.induct)
     (auto simp: join_Cons split_from_not_empty)

lemma join_split: "p \<noteq> [] \<Longrightarrow> join now (split p s) = replace_every_occurrence p now s"
  by (simp add: split_def join_split_from)

lemma prefix_reaches_timestamp:
  assumes "apart now q" and "prefix q (u @ now @ x)"
  shows "prefix q u"
proof (rule ccontr)
  assume n: "\<not> prefix q u"
  from assms(1) have q: "q \<noteq> []" and h: "hd q \<notin> set now" and l: "last q \<notin> set now"
    and c: "\<not> sublist now q" by (auto simp: apart_def)
  from c have now: "now \<noteq> []" by auto
  from assms(2) n have "\<exists>v. q = u @ v \<and> prefix v (now @ x)"
    by (simp add: prefix_append)
  then obtain v where qv: "q = u @ v" and pv: "prefix v (now @ x)"
    by blast
  from qv n have "v \<noteq> []"
    by auto
  note v = qv this pv
  show False
  proof (cases "u = []")
    case True
    with v have "prefix q (now @ x)" by simp
    with q now have "hd q = hd now" by (cases q; cases now) auto
    with now h show False by simp
  next
    case False
    from v(3) have "prefix v now \<or> (\<exists>w. v = now @ w)"
      by (auto simp: prefix_append)
    then consider "prefix v now" | w where "v = now @ w"
      by blast
    then show False
    proof cases
      case 1
      then have "set v \<subseteq> set now"
        by (rule set_mono_prefix)
      with v(2) have "last v \<in> set now"
        using last_in_set [of v] by blast
      moreover have "last q = last v" using v by simp
      ultimately show False using l by simp
    next
      case 2
      with v(1) have "sublist now q" by (auto simp: sublist_def)
      with c show False by simp
    qed
  qed
qed


lemma replace_at_occurrence:
  "p \<noteq> [] \<Longrightarrow> prefix p (c # cs) \<Longrightarrow>
   replace_every_occurrence p now (c # cs) =
     now @ replace_every_occurrence p now (drop (length p) (c # cs))"
  by simp

lemma replace_elsewhere:
  "\<not> (p \<noteq> [] \<and> prefix p (c # cs)) \<Longrightarrow>
   replace_every_occurrence p now (c # cs) = c # replace_every_occurrence p now cs"
  by auto

lemma prefix_through_substitution:
  "apart now q \<Longrightarrow> prefix q (u @ replace_every_occurrence p now s) \<Longrightarrow> prefix q (u @ s)"
proof (induction p now s arbitrary: u rule: replace_every_occurrence.induct)
  case (1 p now)
  then show ?case by simp
next
  case (2 p now c cs)
  show ?case
  proof (cases "p \<noteq> [] \<and> prefix p (c # cs)")
    case True
    then have eq: "replace_every_occurrence p now (c # cs) =
        now @ replace_every_occurrence p now (drop (length p) (c # cs))"
      using replace_at_occurrence by blast
    from "2.prems"(2)
    have "prefix q (u @ now @ replace_every_occurrence p now (drop (length p) (c # cs)))"
      unfolding eq .
    with "2.prems"(1) have "prefix q u"
      by (rule prefix_reaches_timestamp)
    then show ?thesis
      by (rule prefix_prefix)
  next
    case False
    then have eq: "replace_every_occurrence p now (c # cs) = c # replace_every_occurrence p now cs"
      by (rule replace_elsewhere)
    from "2.prems"(2) have "prefix q ((u @ [c]) @ replace_every_occurrence p now cs)"
      unfolding eq by simp
    from "2.IH"(2) [OF False "2.prems"(1) this] show ?thesis
      by simp
  qed
qed

lemma sublist_behind_timestamp:
  "apart now q \<Longrightarrow> set t \<subseteq> set now \<Longrightarrow> sublist q (t @ x) \<Longrightarrow> sublist q x"
proof (induction t)
  case Nil
  then show ?case by simp
next
  case (Cons a t)
  from Cons.prems(1) have q: "q \<noteq> []" and h: "hd q \<notin> set now"
    by (auto simp: apart_def)
  have "\<not> prefix q (a # t @ x)"
  proof
    assume "prefix q (a # t @ x)"
    with q have "hd q = a" by (cases q) auto
    with h Cons.prems(2) show False by simp
  qed
  with Cons.prems(3) have "sublist q (t @ x)"
    by (simp add: sublist_Cons_right)
  with Cons show ?case by simp
qed


lemma sublist_through_substitution:
  "apart now q \<Longrightarrow> sublist q (replace_every_occurrence p now s) \<Longrightarrow> sublist q s"
proof (induction p now s rule: replace_every_occurrence.induct)
  case (1 p now)
  then show ?case by simp
next
  case (2 p now c cs)
  show ?case
  proof (cases "p \<noteq> [] \<and> prefix p (c # cs)")
    case True
    then have eq: "replace_every_occurrence p now (c # cs) =
        now @ replace_every_occurrence p now (drop (length p) (c # cs))"
      using replace_at_occurrence by blast
    from "2.prems"(2)
    have "sublist q (now @ replace_every_occurrence p now (drop (length p) (c # cs)))"
      unfolding eq .
    from sublist_behind_timestamp [OF "2.prems"(1) subset_refl this]
    have "sublist q (replace_every_occurrence p now (drop (length p) (c # cs)))" .
    from "2.IH"(1) [OF True "2.prems"(1) this]
    have "sublist q (drop (length p) (c # cs))" .
    moreover have "sublist (drop (length p) (c # cs)) (c # cs)"
      by (rule sublist_drop)
    ultimately show ?thesis
      by (rule sublist_order.order_trans)
  next
    case False
    then have eq: "replace_every_occurrence p now (c # cs) = c # replace_every_occurrence p now cs"
      by (rule replace_elsewhere)
    from "2.prems"(2) have "sublist q (c # replace_every_occurrence p now cs)"
      unfolding eq .
    then consider "prefix q ([c] @ replace_every_occurrence p now cs)"
      | "sublist q (replace_every_occurrence p now cs)"
      unfolding sublist_Cons_right by auto
    then show ?thesis
    proof cases
      case 1
      with "2.prems"(1) have "prefix q ([c] @ cs)"
        by (rule prefix_through_substitution)
      then show ?thesis unfolding sublist_Cons_right by simp
    next
      case 2
      from "2.IH"(2) [OF False "2.prems"(1) this]
      show ?thesis unfolding sublist_Cons_right by simp
    qed
  qed
qed

lemma placeholder_gone:
  "apart now p \<Longrightarrow> \<not> sublist p (replace_every_occurrence p now s)"
proof (induction p now s rule: replace_every_occurrence.induct)
  case (1 p now)
  then show ?case by (simp add: apart_def)
next
  case (2 p now c cs)
  from "2.prems" have p: "p \<noteq> []" by (simp add: apart_def)
  show ?case
  proof (cases "p \<noteq> [] \<and> prefix p (c # cs)")
    case True
    then have eq: "replace_every_occurrence p now (c # cs) =
        now @ replace_every_occurrence p now (drop (length p) (c # cs))"
      using replace_at_occurrence by blast
    from "2.IH"(1) [OF True "2.prems"]
    have "\<not> sublist p (replace_every_occurrence p now (drop (length p) (c # cs)))" .
    with sublist_behind_timestamp [OF "2.prems" subset_refl]
    have "\<not> sublist p (now @ replace_every_occurrence p now (drop (length p) (c # cs)))"
      by blast
    then show ?thesis unfolding eq .
  next
    case False
    then have eq: "replace_every_occurrence p now (c # cs) = c # replace_every_occurrence p now cs"
      by (rule replace_elsewhere)
    from False p have np: "\<not> prefix p (c # cs)" by blast
    from "2.IH"(2) [OF False "2.prems"]
    have ih: "\<not> sublist p (replace_every_occurrence p now cs)" .
    have "\<not> prefix p ([c] @ replace_every_occurrence p now cs)"
    proof
      assume "prefix p ([c] @ replace_every_occurrence p now cs)"
      with "2.prems" have "prefix p ([c] @ cs)"
        by (rule prefix_through_substitution)
      with np show False by simp
    qed
    with ih show ?thesis
      unfolding eq sublist_Cons_right by simp
  qed
qed

lemma apply_entries_clean:
  assumes "\<And>k. apart (clock k) q"
  shows "(\<exists>e\<in>set entries. placeholder e = q \<and> type e = ''CURRENT_TIME'') \<or> \<not> sublist q out
         \<Longrightarrow> \<not> sublist q (apply_entries clock k out entries)"
proof (induction entries arbitrary: out k)
  case Nil
  then show ?case by simp
next
  case (Cons e es)
  from assms have q: "q \<noteq> []" by (simp add: apart_def)
  show ?case
  proof (cases "placeholder e \<noteq> [] \<and> type e = ''CURRENT_TIME''")
    case True
    let ?out = "replace_every_occurrence (placeholder e) (clock k) out"
    have step: "apply_entries clock k out (e # es) = apply_entries clock (Suc k) ?out es"
      using True by (simp add: join_split)
    have "(\<exists>e\<in>set es. placeholder e = q \<and> type e = ''CURRENT_TIME'') \<or> \<not> sublist q ?out"
    proof (cases "placeholder e = q")
      case True
      then show ?thesis using placeholder_gone [OF assms [of k], of out] by simp
    next
      case False
      with Cons.prems show ?thesis
        using sublist_through_substitution [OF assms [of k], of "placeholder e" out] by auto
    qed
    then show ?thesis
      unfolding step by (rule Cons.IH)
  next
    case False
    then have step: "apply_entries clock k out (e # es) = apply_entries clock k out es"
      by auto
    from False q Cons.prems
    have "(\<exists>e\<in>set es. placeholder e = q \<and> type e = ''CURRENT_TIME'') \<or> \<not> sublist q out"
      by auto
    then show ?thesis
      unfolding step by (rule Cons.IH)
  qed
qed

lemma replace_empty_placeholder: "replace_every_occurrence [] now s = s"
  by (induction s) auto

lemma single_rule:
  "applyDynamicReplacements clock body [\<lparr>placeholder = ph, type = ''CURRENT_TIME''\<rparr>] =
     replace_every_occurrence ph (clock 0) body"
proof (cases "ph = []")
  case True
  then show ?thesis
    by (simp add: applyDynamicReplacements_def replace_empty_placeholder)
next
  case False
  then show ?thesis
    by (simp add: applyDynamicReplacements_def join_split)
qed


text \<open>
  C5, as claimed: the rendered output never contains the placeholder. The handler
  substitutes in the body only, so a placeholder in the shared header is sent as it
  is; and a timestamp that contains the placeholder brings it back into the body.
\<close>

theorem placeholder_survives_rendering:
  "handler (\<lambda>k. ''11/2/2026, 5:15:00 AM'')
     \<lparr>header_html = ''<p>{{CURRENT_TIME}}</p>'', footer_html = []\<rparr>
     \<lparr>content = ''Now: {{CURRENT_TIME}}'',
      dynamic = [\<lparr>placeholder = ''{{CURRENT_TIME}}'', type = ''CURRENT_TIME''\<rparr>]\<rparr> =
     ''<p>{{CURRENT_TIME}}</p>Now: 11/2/2026, 5:15:00 AM''
   \<and> sublist ''{{CURRENT_TIME}}'' ''<p>{{CURRENT_TIME}}</p>Now: 11/2/2026, 5:15:00 AM''
   \<and> applyDynamicReplacements (\<lambda>k. ''11/2/2026, 5:15:00 AM'') ''It is AM''
       [\<lparr>placeholder = ''AM'', type = ''CURRENT_TIME''\<rparr>] =
     ''It is 11/2/2026, 5:15:00 AM''
   \<and> sublist ''AM'' ''It is 11/2/2026, 5:15:00 AM''"
  by code_simp

lemma apply_entries_in_order:
  "apply_entries clock k out entries = substitute_in_order clock k out entries"
  by (induction entries arbitrary: k out) (simp_all add: join_split)

lemma applyDynamicReplacements_in_order:
  "applyDynamicReplacements clock body rules = substitute_in_order clock 0 body rules"
  by (simp add: applyDynamicReplacements_def apply_entries_in_order)

text \<open>
  C5, amended. Rendering applies the rules of the page in the order added, each to the
  text that the rules before it have left, starting from the stored body: a rule of
  type \<open>CURRENT_TIME\<close> with a placeholder replaces every literal occurrence of the
  placeholder in that text by the timestamp read for it, in the words of the
  specification. When every timestamp read during the request is apart from the
  placeholder of such a rule of the page, the substituted body does not contain that
  placeholder, whatever other rules the page has. Header and footer are sent as they
  are, around the substituted body.
\<close>

theorem placeholder_replaced_in_body:
  "applyDynamicReplacements clock body rules = substitute_in_order clock 0 body rules
   \<and> (r \<in> set (dynamic p) \<and> type r = ''CURRENT_TIME'' \<and> (\<forall>k. apart (clock k) (placeholder r)) \<longrightarrow>
        \<not> sublist (placeholder r) (applyDynamicReplacements clock (content p) (dynamic p)))
   \<and> handler clock l p =
       header_html l @ applyDynamicReplacements clock (content p) (dynamic p) @ footer_html l"
proof -
  have sent: "handler clock l p =
       header_html l @ applyDynamicReplacements clock (content p) (dynamic p) @ footer_html l"
    by (simp add: handler_def Let_def)
  have "\<not> sublist (placeholder r) (applyDynamicReplacements clock (content p) (dynamic p))"
    if "r \<in> set (dynamic p)" and "type r = ''CURRENT_TIME''" and "\<forall>k. apart (clock k) (placeholder r)"
  proof -
    from that(1) have ne: "dynamic p \<noteq> []" by auto
    from that(3) have "\<And>k. apart (clock k) (placeholder r)" by simp
    then have "(\<exists>e\<in>set (dynamic p). placeholder e = placeholder r \<and> type e = ''CURRENT_TIME'')
          \<or> \<not> sublist (placeholder r) (content p)
        \<Longrightarrow> \<not> sublist (placeholder r) (apply_entries clock 0 (content p) (dynamic p))"
      by (rule apply_entries_clean [where clock = clock and q = "placeholder r"])
    moreover have "\<exists>e\<in>set (dynamic p). placeholder e = placeholder r \<and> type e = ''CURRENT_TIME''"
      using that(1,2) by blast
    ultimately have "\<not> sublist (placeholder r) (apply_entries clock 0 (content p) (dynamic p))"
      by blast
    with ne show ?thesis
      by (simp add: applyDynamicReplacements_def)
  qed
  with applyDynamicReplacements_in_order [of clock body rules] sent show ?thesis
    by blast
qed

theorem placeholder_replaced_in_body_witness:
  "apart ''11/2/2026, 5:15:00 AM'' ''{{CURRENT_TIME}}''
   \<and> apart ''11/2/2026, 5:15:01 AM'' ''{{CURRENT_TIME}}''
   \<and> applyDynamicReplacements
        (\<lambda>k. if k = 0 then ''11/2/2026, 5:15:00 AM'' else ''11/2/2026, 5:15:01 AM'')
        ''Now: {{CURRENT_TIME}}, checked [[NOW]]''
        [\<lparr>placeholder = ''{{CURRENT_TIME}}'', type = ''CURRENT_TIME''\<rparr>,
         \<lparr>placeholder = ''[[NOW]]'', type = ''CURRENT_TIME''\<rparr>] =
      ''Now: 11/2/2026, 5:15:00 AM, checked 11/2/2026, 5:15:01 AM''
   \<and> \<not> sublist ''{{CURRENT_TIME}}''
       (applyDynamicReplacements
        (\<lambda>k. if k = 0 then ''11/2/2026, 5:15:00 AM'' else ''11/2/2026, 5:15:01 AM'')
        ''Now: {{CURRENT_TIME}}, checked [[NOW]]''
        [\<lparr>placeholder = ''{{CURRENT_TIME}}'', type = ''CURRENT_TIME''\<rparr>,
         \<lparr>placeholder = ''[[NOW]]'', type = ''CURRENT_TIME''\<rparr>])"
proof -
  let ?r = "\<lparr>placeholder = ''{{CURRENT_TIME}}'', type = ''CURRENT_TIME''\<rparr>"
  let ?rules = "[?r, \<lparr>placeholder = ''[[NOW]]'', type = ''CURRENT_TIME''\<rparr>]"
  let ?body = "''Now: {{CURRENT_TIME}}, checked [[NOW]]''"
  let ?p = "\<lparr>content = ?body, dynamic = ?rules\<rparr>"
  let ?clock = "\<lambda>k::nat. if k = 0 then ''11/2/2026, 5:15:00 AM'' else ''11/2/2026, 5:15:01 AM''"
  have a0: "apart ''11/2/2026, 5:15:00 AM'' ''{{CURRENT_TIME}}''"
    unfolding apart_def by code_simp
  have a1: "apart ''11/2/2026, 5:15:01 AM'' ''{{CURRENT_TIME}}''"
    unfolding apart_def by code_simp
  have sel: "placeholder ?r = ''{{CURRENT_TIME}}''" "content ?p = ?body" "dynamic ?p = ?rules"
    by (simp_all only: rule.simps page.simps)
  have all: "\<forall>k. apart (?clock k) (placeholder ?r)"
    unfolding sel
  proof
    fix k :: nat
    show "apart (if k = 0 then ''11/2/2026, 5:15:00 AM'' else ''11/2/2026, 5:15:01 AM'')
            ''{{CURRENT_TIME}}''"
    proof (cases "k = 0")
      case True
      from a0 show ?thesis unfolding if_P [OF True] .
    next
      case False
      from a1 show ?thesis unfolding if_not_P [OF False] .
    qed
  qed
  have r: "?r \<in> set (dynamic ?p)" "type ?r = ''CURRENT_TIME''"
    unfolding sel by (simp_all only: rule.simps list.set insertI1)
  note general = placeholder_replaced_in_body [where clock = ?clock and body = ?body and rules = ?rules and r = ?r and p = ?p]
  from general r all
  have "\<not> sublist (placeholder ?r) (applyDynamicReplacements ?clock (content ?p) (dynamic ?p))"
    by blast
  then have gone: "\<not> sublist ''{{CURRENT_TIME}}'' (applyDynamicReplacements ?clock ?body ?rules)"
    unfolding sel .
  have val: "substitute_in_order ?clock 0 ?body ?rules =
      ''Now: 11/2/2026, 5:15:00 AM, checked 11/2/2026, 5:15:01 AM''"
    by code_simp
  from general
  have "applyDynamicReplacements ?clock ?body ?rules = substitute_in_order ?clock 0 ?body ?rules"
    by (rule conjunct1)
  from this val have "applyDynamicReplacements ?clock ?body ?rules =
      ''Now: 11/2/2026, 5:15:00 AM, checked 11/2/2026, 5:15:01 AM''"
    by (rule trans)
  with a0 a1 gone show ?thesis
    by blast
qed

subsection \<open>Replacing a placeholder by an asset\<close>

lemma first_match_none: "first_match p pre s = None \<longleftrightarrow> \<not> sublist p s"
  by (induction s arbitrary: pre) (auto simp: sublist_Cons_right)

lemma substitution_without_dollar: "CHR ''$'' \<notin> set r \<Longrightarrow> substitution m a b r = r"
  by (induction m a b r rule: substitution.induct) auto

lemma first_match_some:
  "first_match p pre s = Some (a, b) \<Longrightarrow> p \<noteq> [] \<Longrightarrow>
   \<exists>a'. a = pre @ a' \<and> s = a' @ p @ b \<and> \<not> sublist p (a' @ butlast p)"
proof (induction s arbitrary: pre)
  case Nil
  then show ?case by simp
next
  case (Cons c cs)
  show ?case
  proof (cases "prefix p (c # cs)")
    case True
    with Cons.prems(1) have ab: "a = pre" "b = drop (length p) (c # cs)"
      by simp_all
    from True have "c # cs = p @ drop (length p) (c # cs)"
      by (auto simp: prefix_def)
    moreover have "\<not> sublist p (butlast p)"
    proof
      assume "sublist p (butlast p)"
      then have "length p \<le> length (butlast p)"
        by (rule sublist_length_le)
      with Cons.prems(2) show False
        by (cases p rule: rev_cases) auto
    qed
    ultimately show ?thesis
      using ab by (intro exI [of _ "[]"]) simp
  next
    case False
    with Cons.prems(1) have "first_match p (pre @ [c]) cs = Some (a, b)"
      by simp
    from Cons.IH [OF this Cons.prems(2)]
    obtain a' where a': "a = (pre @ [c]) @ a'" "cs = a' @ p @ b" "\<not> sublist p (a' @ butlast p)"
      by blast
    have "\<not> prefix p (c # a' @ butlast p)"
    proof
      assume "prefix p (c # a' @ butlast p)"
      then have "prefix p ((c # a' @ butlast p) @ [last p] @ b)"
        by (rule prefix_prefix)
      moreover have "(c # a' @ butlast p) @ [last p] @ b = c # cs"
        using a'(2) Cons.prems(2) by simp
      ultimately show False
        using False by simp
    qed
    with a'(3) have "\<not> sublist p ((c # a') @ butlast p)"
      by (simp add: sublist_Cons_right)
    with a'(1,2) show ?thesis
      by (intro exI [of _ "c # a'"]) simp
  qed
qed

lemma replace_absent: "\<not> sublist p s \<Longrightarrow> replace p r s = s"
  using first_match_none [of p "[]" s] by (simp add: replace_def)

lemma replace_first:
  assumes "p \<noteq> []" and "sublist p s"
  shows "\<exists>a b. s = a @ p @ b \<and> \<not> sublist p (a @ butlast p)
           \<and> replace p r s = a @ substitution p a b r @ b"
proof -
  from assms(2) obtain a b where m: "first_match p [] s = Some (a, b)"
    using first_match_none [of p "[]" s] by (cases "first_match p [] s") auto
  from first_match_some [OF m assms(1)]
  have "s = a @ p @ b" "\<not> sublist p (a @ butlast p)"
    by auto
  moreover from m have "replace p r s = a @ substitution p a b r @ b"
    by (simp add: replace_def)
  ultimately show ?thesis
    by blast
qed

text \<open>
  With placement \<open>replace_placeholder\<close> and a non-empty placeholder, \<open>add_asset\<close>
  hands the page content, the placeholder and the image element to \<open>replace\<close>.
\<close>

lemma add_asset_replace_placeholder:
  assumes "route_path (field a ''path'') = Some path"
    and "nonempty_string (field a ''asset'') = Some asset"
    and "img_html asset a = Inr html"
    and "field a ''placement'' = Str ''replace_placeholder''"
    and "nonempty_string (field a ''placeholder'') = Some ph"
  shows "add_asset c a =
           Inr (c\<lparr>pages := put_page path
                  ((page_at (pages c) path)\<lparr>content := replace ph html (content (page_at (pages c) path))\<rparr>)
                  (pages c)\<rparr>)"
  using assms by (simp add: add_asset_def and_then_def place_def)

text \<open>
  C7. The page content is \<open><h1>Sale</h1>{{HERO}}\<close> and \<open>add_asset\<close> is asked to
  replace \<open>{{HERO}}\<close> by the image \<open>hero.png\<close> with the alternative text
  \<open>Save $$ today\<close>. The generated image element carries that text, but the content
  after the call does not hold the generated element: \<open>replace\<close> reads \<open>$$\<close> in its
  replacement as one dollar sign.
\<close>

theorem dollar_pattern_alters_inserted_fragment:
  \<open>img_html ''hero.png''
     [(''path'', Str ''/''), (''asset'', Str ''hero.png''), (''alt'', Str ''Save $$ today''),
      (''placement'', Str ''replace_placeholder''), (''placeholder'', Str ''{{HERO}}'')] =
    Inr ''<img src="/assets/images/hero.png" alt="Save $$ today" />''
  \<and> add_asset \<lparr>pages = [(''/'', \<lparr>content = ''<h1>Sale</h1>{{HERO}}'', dynamic = []\<rparr>)],
        layout = \<lparr>header_html = [], footer_html = []\<rparr>\<rparr>
     [(''path'', Str ''/''), (''asset'', Str ''hero.png''), (''alt'', Str ''Save $$ today''),
      (''placement'', Str ''replace_placeholder''), (''placeholder'', Str ''{{HERO}}'')] =
    Inr \<lparr>pages = [(''/'', \<lparr>content = ''<h1>Sale</h1><img src="/assets/images/hero.png" alt="Save $ today" />'', dynamic = []\<rparr>)],
        layout = \<lparr>header_html = [], footer_html = []\<rparr>\<rparr>\<close>
  by code_simp

subsection \<open>The plan cache\<close>

lemma cache_check_Some:
  "cache_check s c sig = Some calls \<longleftrightarrow>
     (\<exists>source_mtime cache cached.
        s = Some source_mtime \<and> c = Some cache \<and> source_mtime \<le> mtimeMs cache
        \<and> document cache = Some cached \<and> toolCalls cached = Some calls
        \<and> assetsSignature cached = Some sig)"
  by (auto simp: cache_check_def split: option.splits)

text \<open>
  C1, as claimed: the plan is reused if and only if the fingerprint stored in it is at
  least as new as the source file and its signature is the current one. The check
  compares the modification time of the cache file, not the stored fingerprint: a plan
  whose stored fingerprint is older than the source file is reused when the cache file
  is newer, and a plan whose stored fingerprint is current is rejected when the cache
  file is older than the source file.
\<close>

theorem stored_fingerprint_is_not_consulted:
  "cache_check (Some 1762060500000)
     (Some \<lparr>mtimeMs = 1762060800000,
            document = Some \<lparr>toolCalls = Some [create_page_call ''/'' ''Home''],
                             assetsSignature = Some ''[]'',
                             sourceMTimeMs = 1762000000000\<rparr>\<rparr>)
     ''[]'' = Some [create_page_call ''/'' ''Home'']
   \<and> \<not> valid_for_reuse 1762060500000 ''[]''
         \<lparr>toolCalls = Some [create_page_call ''/'' ''Home''],
          assetsSignature = Some ''[]'',
          sourceMTimeMs = 1762000000000\<rparr>
   \<and> cache_check (Some 1762060500000)
     (Some \<lparr>mtimeMs = 1762000000000,
            document = Some \<lparr>toolCalls = Some [create_page_call ''/'' ''Home''],
                             assetsSignature = Some ''[]'',
                             sourceMTimeMs = 1762060500000\<rparr>\<rparr>)
     ''[]'' = None
   \<and> valid_for_reuse 1762060500000 ''[]''
         \<lparr>toolCalls = Some [create_page_call ''/'' ''Home''],
          assetsSignature = Some ''[]'',
          sourceMTimeMs = 1762060500000\<rparr>"
  by (simp add: cache_check_def valid_for_reuse_def)

text \<open>
  C1, amended. The cached plan is reused, and neither the API key nor the model is
  consulted, if and only if both files can be inspected, the cache file was modified no
  earlier than the source file, it holds a document with a list of tool calls, and the
  signature stored in that document is the one computed from the current asset
  inventory. In every other case the plan is compiled afresh: the build needs the API
  key and takes the tool calls that the model returns.
\<close>

theorem plan_reused_iff_cache_file_current:
  "(plan stringify e = Inr (From_cache, calls) \<longleftrightarrow>
      (\<exists>source_mtime cache cached.
         sourceStat e = Some source_mtime \<and> cacheStat e = Some cache
         \<and> source_mtime \<le> mtimeMs cache
         \<and> document cache = Some cached \<and> toolCalls cached = Some calls
         \<and> assetsSignature cached = Some (assets_signature stringify (assetsList e))))
   \<and> (plan stringify e = Inr (From_cache, calls) \<longrightarrow>
        plan stringify (e\<lparr>apiKey := key, completion := response\<rparr>) = Inr (From_cache, calls))
   \<and> ((\<forall>cached. plan stringify e \<noteq> Inr (From_cache, cached)) \<longrightarrow>
        plan stringify e =
          (case non_empty (apiKey e) of
             None \<Rightarrow> Inl (Error ''Gemini API key is missing. Provide it in config.json under gemini.apiKey or set GEMINI_API_KEY.'')
           | Some k \<Rightarrow> and_then (completion e) (\<lambda>calls. Inr (From_model, calls))))"
proof -
  let ?check = "cache_check (sourceStat e) (cacheStat e) (assets_signature stringify (assetsList e))"
  have hit: "plan stringify e = Inr (From_cache, calls) \<longleftrightarrow> ?check = Some calls" for calls
    by (auto simp: plan_def and_then_def split: option.splits sum.splits)
  have one: "plan stringify e = Inr (From_cache, calls) \<longleftrightarrow>
      (\<exists>source_mtime cache cached.
         sourceStat e = Some source_mtime \<and> cacheStat e = Some cache
         \<and> source_mtime \<le> mtimeMs cache
         \<and> document cache = Some cached \<and> toolCalls cached = Some calls
         \<and> assetsSignature cached = Some (assets_signature stringify (assetsList e)))"
    unfolding hit by (rule cache_check_Some)
  have two: "plan stringify (e\<lparr>apiKey := key, completion := response\<rparr>) = Inr (From_cache, calls)"
    if "plan stringify e = Inr (From_cache, calls)"
    using that unfolding hit by (simp add: plan_def)
  have three: "plan stringify e =
          (case non_empty (apiKey e) of
             None \<Rightarrow> Inl (Error ''Gemini API key is missing. Provide it in config.json under gemini.apiKey or set GEMINI_API_KEY.'')
           | Some k \<Rightarrow> and_then (completion e) (\<lambda>calls. Inr (From_model, calls)))"
    if "\<forall>cached. plan stringify e \<noteq> Inr (From_cache, cached)"
  proof -
    from that have "?check = None"
      unfolding hit by (cases ?check) auto
    then show ?thesis
      by (simp add: plan_def)
  qed
  from one two three show ?thesis
    by blast
qed

theorem plan_reused_iff_cache_file_current_witness:
  "plan (join '','')
     \<lparr>sourceStat = Some 1762060500000,
      cacheStat = Some \<lparr>mtimeMs = 1762060800000,
                        document = Some \<lparr>toolCalls = Some [create_page_call ''/'' ''Home''],
                                         assetsSignature = Some ''assets/images/test.png'',
                                         sourceMTimeMs = 1762000000000\<rparr>\<rparr>,
      assetsList = [''assets/images/test.png''],
      apiKey = None,
      completion = Inl (Error ''offline'')\<rparr> =
     Inr (From_cache, [create_page_call ''/'' ''Home''])
   \<and> plan (join '','')
     \<lparr>sourceStat = Some 1762060900000,
      cacheStat = Some \<lparr>mtimeMs = 1762060800000,
                        document = Some \<lparr>toolCalls = Some [create_page_call ''/'' ''Home''],
                                         assetsSignature = Some ''assets/images/test.png'',
                                         sourceMTimeMs = 1762060500000\<rparr>\<rparr>,
      assetsList = [''assets/images/test.png''],
      apiKey = Some ''key'',
      completion = Inr [create_page_call ''/'' ''New'']\<rparr> =
     Inr (From_model, [create_page_call ''/'' ''New''])"
proof -
  let ?plan = "\<lparr>toolCalls = Some [create_page_call ''/'' ''Home''],
                 assetsSignature = Some ''assets/images/test.png'',
                 sourceMTimeMs = 1762000000000\<rparr>"
  let ?fresh = "\<lparr>sourceStat = Some 1762060500000,
      cacheStat = Some \<lparr>mtimeMs = 1762060800000, document = Some ?plan\<rparr>,
      assetsList = [''assets/images/test.png''],
      apiKey = None,
      completion = Inl (Error ''offline'')\<rparr>"
  let ?stale = "\<lparr>sourceStat = Some 1762060900000,
      cacheStat = Some \<lparr>mtimeMs = 1762060800000,
                        document = Some \<lparr>toolCalls = Some [create_page_call ''/'' ''Home''],
                                         assetsSignature = Some ''assets/images/test.png'',
                                         sourceMTimeMs = 1762060500000\<rparr>\<rparr>,
      assetsList = [''assets/images/test.png''],
      apiKey = Some ''key'',
      completion = Inr [create_page_call ''/'' ''New'']\<rparr>"
  note general = plan_reused_iff_cache_file_current [where stringify = "join '',''"]
  have "\<exists>source_mtime cache cached.
         sourceStat ?fresh = Some source_mtime \<and> cacheStat ?fresh = Some cache
         \<and> source_mtime \<le> mtimeMs cache
         \<and> document cache = Some cached \<and> toolCalls cached = Some [create_page_call ''/'' ''Home'']
         \<and> assetsSignature cached = Some (assets_signature (join '','') (assetsList ?fresh))"
    by (simp add: assets_signature_def)
  with general [where e = ?fresh and calls = "[create_page_call ''/'' ''Home'']"]
  have hit: "plan (join '','') ?fresh = Inr (From_cache, [create_page_call ''/'' ''Home''])"
    by blast
  have "plan (join '','') ?stale = Inr (From_model, [create_page_call ''/'' ''New''])"
    by (simp add: plan_def cache_check_def assets_signature_def non_empty_def and_then_def)
  then have "\<forall>cached. plan (join '','') ?stale \<noteq> Inr (From_cache, cached)"
    by simp
  with general [where e = ?stale]
  have "plan (join '','') ?stale =
          (case non_empty (apiKey ?stale) of
             None \<Rightarrow> Inl (Error ''Gemini API key is missing. Provide it in config.json under gemini.apiKey or set GEMINI_API_KEY.'')
           | Some k \<Rightarrow> and_then (completion ?stale) (\<lambda>calls. Inr (From_model, calls)))"
    by blast
  then have miss: "plan (join '','') ?stale = Inr (From_model, [create_page_call ''/'' ''New''])"
    by (simp add: non_empty_def and_then_def)
  from hit miss show ?thesis
    by blast
qed

subsection \<open>Determinism\<close>

text \<open>
  C9. The compiled application is a function of the tool-call list alone: two runs that
  arrive at the same list, from the cache or from the model, with whatever files,
  asset inventory and credentials, replay it on the empty context and build the same
  route table.
\<close>

theorem compiled_app_determined_by_tool_calls:
  "plan stringify e1 = Inr (how1, calls) \<and> plan stringify e2 = Inr (how2, calls) \<longrightarrow>
     compileApp stringify parse e1 = build parse calls
     \<and> compileApp stringify parse e2 = build parse calls"
  by (simp add: compileApp_def and_then_def)

theorem compiled_app_determined_by_tool_calls_witness:
  "plan (join '','')
     \<lparr>sourceStat = Some 1762060500000,
      cacheStat = Some \<lparr>mtimeMs = 1762060800000,
                        document = Some \<lparr>toolCalls = Some [create_page_call ''/'' ''Home''],
                                         assetsSignature = Some ''assets/images/test.png'',
                                         sourceMTimeMs = 1762060500000\<rparr>\<rparr>,
      assetsList = [''assets/images/test.png''],
      apiKey = None,
      completion = Inl (Error ''offline'')\<rparr> =
     Inr (From_cache, [create_page_call ''/'' ''Home''])
   \<and> plan (join '','')
     \<lparr>sourceStat = Some 1762060500000,
      cacheStat = None,
      assetsList = [],
      apiKey = Some ''key'',
      completion = Inr [create_page_call ''/'' ''Home'']\<rparr> =
     Inr (From_model, [create_page_call ''/'' ''Home''])
   \<and> compileApp (join '','') Map.empty
     \<lparr>sourceStat = Some 1762060500000,
      cacheStat = Some \<lparr>mtimeMs = 1762060800000,
                        document = Some \<lparr>toolCalls = Some [create_page_call ''/'' ''Home''],
                                         assetsSignature = Some ''assets/images/test.png'',
                                         sourceMTimeMs = 1762060500000\<rparr>\<rparr>,
      assetsList = [''assets/images/test.png''],
      apiKey = None,
      completion = Inl (Error ''offline'')\<rparr> =
     build Map.empty [create_page_call ''/'' ''Home'']
   \<and> compileApp (join '','') Map.empty
     \<lparr>sourceStat = Some 1762060500000,
      cacheStat = None,
      assetsList = [],
      apiKey = Some ''key'',
      completion = Inr [create_page_call ''/'' ''Home'']\<rparr> =
     build Map.empty [create_page_call ''/'' ''Home'']
   \<and> build Map.empty [create_page_call ''/'' ''Home''] =
     Inr \<lparr>routes = [(''/'', \<lparr>content = ''Home'', dynamic = []\<rparr>)],
          shared_layout = \<lparr>header_html = [], footer_html = []\<rparr>\<rparr>"
proof -
  let ?cached = "\<lparr>sourceStat = Some 1762060500000,
      cacheStat = Some \<lparr>mtimeMs = 1762060800000,
                        document = Some \<lparr>toolCalls = Some [create_page_call ''/'' ''Home''],
                                         assetsSignature = Some ''assets/images/test.png'',
                                         sourceMTimeMs = 1762060500000\<rparr>\<rparr>,
      assetsList = [''assets/images/test.png''],
      apiKey = None,
      completion = Inl (Error ''offline'')\<rparr>"
  let ?first = "\<lparr>sourceStat = Some 1762060500000,
      cacheStat = None,
      assetsList = [],
      apiKey = Some ''key'',
      completion = Inr [create_page_call ''/'' ''Home'']\<rparr>"
  have p1: "plan (join '','') ?cached = Inr (From_cache, [create_page_call ''/'' ''Home''])"
    by (simp add: plan_def cache_check_def assets_signature_def)
  have p2: "plan (join '','') ?first = Inr (From_model, [create_page_call ''/'' ''Home''])"
    by (simp add: plan_def cache_check_def assets_signature_def non_empty_def and_then_def)
  from compiled_app_determined_by_tool_calls [where stringify = "join '',''" and ?e1.0 = ?cached and ?e2.0 = ?first and parse = Map.empty] p1 p2
  have same: "compileApp (join '','') Map.empty ?cached = build Map.empty [create_page_call ''/'' ''Home'']
     \<and> compileApp (join '','') Map.empty ?first = build Map.empty [create_page_call ''/'' ''Home'']"
    by blast
  have b: "build Map.empty [create_page_call ''/'' ''Home''] =
     Inr \<lparr>routes = [(''/'', \<lparr>content = ''Home'', dynamic = []\<rparr>)],
          shared_layout = \<lparr>header_html = [], footer_html = []\<rparr>\<rparr>"
    by (simp add: build_def run_create_page_call and_then_def empty_ctx_def page_at_def new_page_def wire_def)
  from p1 p2 same b show ?thesis
    by blast
qed

end
